theory Spec2Isabelle
  imports Complex_Main "HOL-Library.Stream" "HOL-Library.Char_ord" "HOL-Library.List_Lexorder"
begin

section \<open>Values shared by the scripts\<close>

subsection \<open>JSON bodies\<close>

text \<open>
  Every handler builds a Python dict (or a list of dicts) and hands it to \<open>jsonify\<close>.
  A dict literal is kept as an association list in the order the source writes its keys.
  A Python \<open>float\<close> is carried as an exact rational (\<open>JNum\<close>): binary rounding of
  the double is not represented.
\<close>

datatype json =
    JNull
  | JInt int
  | JNum rat
  | JStr string
  | JArr "json list"
  | JObj "(string \<times> json) list"

text \<open>\<open>d[k]\<close> on a decoded JSON object, as a partial lookup.\<close>

fun field :: "string \<Rightarrow> json \<Rightarrow> json option" where
  "field k (JObj kvs) = map_of kvs k"
| "field k JNull = None"
| "field k (JInt i) = None"
| "field k (JNum q) = None"
| "field k (JStr s) = None"
| "field k (JArr xs) = None"

subsection \<open>Decimal formatting\<close>

text \<open>\<open>str(n)\<close> for a non-negative integer, and the format specs \<open>{i}\<close> and \<open>{i:02d}\<close>.\<close>

definition digit :: "nat \<Rightarrow> char" where
  "digit d = ''0123456789'' ! (d mod 10)"

fun str_nat :: "nat \<Rightarrow> string" where
  "str_nat n = (if n < 10 then [digit n] else str_nat (n div 10) @ [digit (n mod 10)])"

definition str_int :: "int \<Rightarrow> string" where
  "str_int i = (if i < 0 then CHR ''-'' # str_nat (nat (- i)) else str_nat (nat i))"

text \<open>
  \<open>format(i, '0Wd')\<close>: the sign comes first and zeros fill up to the width \<open>W\<close>;
  a number that is already wider is printed in full.
\<close>

definition fmt_0d :: "nat \<Rightarrow> int \<Rightarrow> string" where
  "fmt_0d w i =
     (if i < 0
      then CHR ''-'' # replicate (w - 1 - length (str_nat (nat (- i)))) CHR ''0'' @ str_nat (nat (- i))
      else replicate (w - length (str_nat (nat i))) CHR ''0'' @ str_nat (nat i))"

subsection \<open>The random source\<close>

text \<open>
  The handlers draw from the process-wide generator of Python's \<open>random\<close> module, which
  is not part of the repository. Its state is an endless tape of raw draws; each library
  call takes the next raw value and maps it into the range the library documents:
  \<open>randint(a, b)\<close> is \<open>a + randbelow(b - a + 1)\<close>, \<open>choice(seq)\<close> is
  \<open>seq[randbelow(len(seq))]\<close>, \<open>random()\<close> is a multiple of \<open>2\<^sup>-\<^sup>5\<^sup>3\<close> in \<open>[0, 1)\<close> and
  \<open>uniform(a, b)\<close> is \<open>a + (b - a) * random()\<close>.
\<close>

type_synonym rng = "nat stream"

definition randbelow :: "nat \<Rightarrow> rng \<Rightarrow> nat \<times> rng" where
  "randbelow n g = (shd g mod n, stl g)"

definition randint :: "int \<Rightarrow> int \<Rightarrow> rng \<Rightarrow> int \<times> rng" where
  "randint a b g = (let (r, g') = randbelow (nat (b - a + 1)) g in (a + int r, g'))"

definition choice :: "'a list \<Rightarrow> rng \<Rightarrow> 'a \<times> rng" where
  "choice seq g = (let (r, g') = randbelow (length seq) g in (seq ! r, g'))"

definition random :: "rng \<Rightarrow> rat \<times> rng" where
  "random g = (let (r, g') = randbelow (2 ^ 53) g in (of_nat r / 2 ^ 53, g'))"

definition uniform :: "rat \<Rightarrow> rat \<Rightarrow> rng \<Rightarrow> rat \<times> rng" where
  "uniform a b g = (let (u, g') = random g in (a + (b - a) * u, g'))"

text \<open>\<open>round(x, 1)\<close>: to the nearest tenth, a tie going to the even neighbour.\<close>

definition round_half_even :: "rat \<Rightarrow> int" where
  "round_half_even q =
     (let f = \<lfloor>q\<rfloor>; d = q - of_int f
      in if d < 1 / 2 then f
         else if 1 / 2 < d then f + 1
         else if even f then f else f + 1)"

definition round1 :: "rat \<Rightarrow> rat" where
  "round1 x = of_int (round_half_even (x * 10)) / 10"

section \<open>EnvSetup: the mock DCIM server\<close>

text \<open>
  What a handler can touch: the random source, the wall clock that \<open>datetime.now()\<close>
  reads (a tape of readings, one taken per call) and the log that \<open>logger.info\<close>
  appends to.
\<close>

record datetime =
  year :: nat
  month :: nat
  day :: nat
  hour :: nat
  minute :: nat
  second :: nat
  microsecond :: nat

record dcim_state =
  rng :: rng
  clock :: "datetime stream"
  log :: "string list"

definition logger_info :: "string \<Rightarrow> dcim_state \<Rightarrow> dcim_state" where
  "logger_info msg s = s\<lparr>log := log s @ [msg]\<rparr>"

subsection \<open>get_rack_power\<close>

definition rack_record :: "int \<Rightarrow> int \<Rightarrow> json" where
  "rack_record i watts = JObj
     [(''id'', JStr (''rack-'' @ fmt_0d 2 i)),
      (''location'', JStr (''Row-'' @ str_int ((i - 1) div 2 + 1))),
      (''power_consumption_watts'', JInt watts),
      (''pdu_id'', JStr (''pdu-'' @ fmt_0d 2 i)),
      (''pdu_status'', JStr ''operational'')]"

text \<open>The body of \<open>for i in range(1, 4): racks.append(...)\<close>, threading the generator.\<close>

fun rack_loop :: "int list \<Rightarrow> json list \<Rightarrow> rng \<Rightarrow> json list \<times> rng" where
  "rack_loop [] racks g = (racks, g)"
| "rack_loop (i # is) racks g =
     (let (watts, g') = randint 7500 8500 g
      in rack_loop is (racks @ [rack_record i watts]) g')"

definition get_rack_power :: "dcim_state \<Rightarrow> json \<times> dcim_state" where
  "get_rack_power s =
     (let (racks, g') = rack_loop [1, 2, 3] [] (rng s);
          s' = logger_info (''Mock DCIM: Serving power data for '' @ str_nat (length racks) @ '' racks'')
                 (s\<lparr>rng := g'\<rparr>)
      in (JObj [(''racks'', JArr racks)], s'))"

subsection \<open>get_temperature\<close>

definition locations :: "string list" where
  "locations = [''rack-01'', ''rack-02'', ''server-room'']"

definition types :: "string list" where
  "types = [''ambient'', ''supply'', ''return'']"

definition sensor_record :: "int \<Rightarrow> string \<Rightarrow> string \<Rightarrow> rat \<Rightarrow> json" where
  "sensor_record i loc sensor_type t = JObj
     [(''id'', JStr (''temp-'' @ fmt_0d 2 i)),
      (''location'', JStr loc),
      (''type'', JStr sensor_type),
      (''temperature_celsius'', JNum t)]"

text \<open>\<open>for i, (loc, sensor_type) in enumerate(zip(locations, types))\<close>.\<close>

fun sensor_loop :: "(int \<times> string \<times> string) list \<Rightarrow> json list \<Rightarrow> rng \<Rightarrow> json list \<times> rng" where
  "sensor_loop [] sensors g = (sensors, g)"
| "sensor_loop ((i, loc, sensor_type) # rest) sensors g =
     (let (x, g') = uniform 20 30 g
      in sensor_loop rest (sensors @ [sensor_record i loc sensor_type (round1 x)]) g')"

definition enumerate_from0 :: "'a list \<Rightarrow> (int \<times> 'a) list" where
  "enumerate_from0 xs = zip (map int [0..<length xs]) xs"

definition get_temperature :: "dcim_state \<Rightarrow> json \<times> dcim_state" where
  "get_temperature s =
     (let (sensors, g') = sensor_loop (enumerate_from0 (zip locations types)) [] (rng s);
          s' = logger_info
                 (''Mock DCIM: Serving temperature data for '' @ str_nat (length sensors) @ '' sensors'')
                 (s\<lparr>rng := g'\<rparr>)
      in (JObj [(''sensors'', JArr sensors)], s'))"

subsection \<open>get_cooling_status\<close>

definition status_choices :: "string list" where
  "status_choices = [''operational'', ''operational'', ''operational'', ''warning'']"

definition cooling_record :: "int \<Rightarrow> string \<Rightarrow> int \<Rightarrow> json" where
  "cooling_record i status load = JObj
     [(''id'', JStr (''crac-'' @ fmt_0d 2 i)),
      (''location'', JStr (''Zone-'' @ str_int i)),
      (''status'', JStr status),
      (''capacity_kw'', JInt 50),
      (''current_load_percent'', JInt load)]"

text \<open>The dict literal evaluates its values in order: the status draw, then the load draw.\<close>

fun cooling_loop :: "int list \<Rightarrow> json list \<Rightarrow> rng \<Rightarrow> json list \<times> rng" where
  "cooling_loop [] units g = (units, g)"
| "cooling_loop (i # is) units g =
     (let (status, g1) = choice status_choices g;
          (load, g2) = randint 60 85 g1
      in cooling_loop is (units @ [cooling_record i status load]) g2)"

definition get_cooling_status :: "dcim_state \<Rightarrow> json \<times> dcim_state" where
  "get_cooling_status s =
     (let (units, g') = cooling_loop [1, 2, 3] [] (rng s);
          s' = logger_info
                 (''Mock DCIM: Serving cooling data for '' @ str_nat (length units) @ '' units'')
                 (s\<lparr>rng := g'\<rparr>)
      in (JObj [(''cooling_units'', JArr units)], s'))"

subsection \<open>health_check\<close>

text \<open>
  \<open>datetime.isoformat()\<close>: \<open>YYYY-MM-DDTHH:MM:SS\<close>, followed by \<open>.ffffff\<close> only when the
  microsecond field is not zero.
\<close>

definition isoformat :: "datetime \<Rightarrow> string" where
  "isoformat d =
     fmt_0d 4 (int (year d)) @ ''-'' @ fmt_0d 2 (int (month d)) @ ''-'' @ fmt_0d 2 (int (day d))
     @ ''T'' @ fmt_0d 2 (int (hour d)) @ '':'' @ fmt_0d 2 (int (minute d)) @ '':''
     @ fmt_0d 2 (int (second d))
     @ (if microsecond d = 0 then [] else ''.'' @ fmt_0d 6 (int (microsecond d)))"

definition now :: "dcim_state \<Rightarrow> datetime \<times> dcim_state" where
  "now s = (shd (clock s), s\<lparr>clock := stl (clock s)\<rparr>)"

definition health_check :: "dcim_state \<Rightarrow> json \<times> dcim_state" where
  "health_check s =
     (let (t, s') = now s
      in (JObj [(''status'', JStr ''healthy''),
                (''service'', JStr ''Mock DCIM Server''),
                (''timestamp'', JStr (isoformat t))], s'))"

subsection \<open>Routing and dispatch\<close>

text \<open>
  \<open>@app.route(rule)\<close> registers a view under a URL rule. The framework splits rule and
  path at the slashes; a rule segment written \<open><name>\<close> or \<open><converter:name>\<close> is a
  variable and binds the path segment under \<open>name\<close>, any other segment has to be equal.
  The bound variables are the keyword arguments the view is called with; the query
  string takes no part in matching or binding.
\<close>

datatype http_method = GET | HEAD | POST | PUT | DELETE | OPTIONS

record request =
  req_method :: http_method
  req_path :: string
  req_query :: "(string \<times> string) list"

fun split_slash :: "string \<Rightarrow> string list" where
  "split_slash [] = [[]]"
| "split_slash (c # cs) =
     (if c = CHR ''/'' then [] # split_slash cs
      else (case split_slash cs of
              [] \<Rightarrow> [[c]]
            | seg # segs \<Rightarrow> (c # seg) # segs))"

definition rule_variable :: "string \<Rightarrow> string option" where
  "rule_variable seg =
     (if 2 \<le> length seg \<and> hd seg = CHR ''<'' \<and> last seg = CHR ''>''
      then (let inner = butlast (tl seg)
            in (case dropWhile (\<lambda>c. c \<noteq> CHR '':'') inner of
                  [] \<Rightarrow> Some inner
                | colon # name \<Rightarrow> Some name))
      else None)"

fun match_segments :: "string list \<Rightarrow> string list \<Rightarrow> (string \<times> string) list option" where
  "match_segments [] [] = Some []"
| "match_segments (p # ps) (x # xs) =
     (case rule_variable p of
        Some v \<Rightarrow> (if x = [] then None
                   else map_option (\<lambda>args. (v, x) # args) (match_segments ps xs))
      | None \<Rightarrow> (if p = x then match_segments ps xs else None))"
| "match_segments [] (x # xs) = None"
| "match_segments (p # ps) [] = None"

definition match_rule :: "string \<Rightarrow> string \<Rightarrow> (string \<times> string) list option" where
  "match_rule rule path = match_segments (split_slash rule) (split_slash path)"

text \<open>
  A rule answers the methods it was registered with (\<open>GET\<close> when none are given), \<open>HEAD\<close>
  whenever it answers \<open>GET\<close>, and \<open>OPTIONS\<close>, which the framework answers by itself.
\<close>

definition rule_methods :: "http_method list \<Rightarrow> http_method list" where
  "rule_methods ms = ms @ (if GET \<in> set ms then [HEAD] else []) @ [OPTIONS]"

text \<open>
  The first rule that matches path and method wins. With no such rule the request fails
  with 405 when some rule matched the path, with 404 otherwise.
\<close>

fun lookup_rule ::
  "(string \<times> http_method list \<times> 'e) list \<Rightarrow> http_method \<Rightarrow> string \<Rightarrow> bool
     \<Rightarrow> nat + ('e \<times> (string \<times> string) list)" where
  "lookup_rule [] m path seen = Inl (if seen then 405 else 404)"
| "lookup_rule ((rule, ms, e) # rules) m path seen =
     (case match_rule rule path of
        None \<Rightarrow> lookup_rule rules m path seen
      | Some args \<Rightarrow>
          (if m \<in> set (rule_methods ms) then Inr (e, args)
           else lookup_rule rules m path True))"

datatype py_exception =
    TypeError string
  | KeyError string
  | ImportError string
  | ConnectionError string
  | OtherException string
  | KeyboardInterrupt
  | SystemExit int

text \<open>
  \<open>view(**view_args)\<close> for a view whose parameters are all required: a keyword that is
  no parameter, or a parameter without a keyword, raises \<open>TypeError\<close> before the body
  runs. The body gets the value bound to each parameter.
\<close>

definition quote :: "string \<Rightarrow> string" where
  "quote s = [CHR 0x27] @ s @ [CHR 0x27]"

definition call_view ::
  "string list \<Rightarrow> (string \<times> string) list \<Rightarrow> ((string \<Rightarrow> string) \<Rightarrow> 'a) \<Rightarrow> py_exception + 'a" where
  "call_view params kwargs body =
     (case filter (\<lambda>k. k \<notin> set params) (map fst kwargs) of
        k # ks \<Rightarrow> Inl (TypeError (''got an unexpected keyword argument '' @ quote k))
      | [] \<Rightarrow>
          (case filter (\<lambda>p. map_of kwargs p = None) params of
             p # ps \<Rightarrow> Inl (TypeError (''missing '' @ str_nat (length (p # ps))
                                       @ '' required positional argument(s): '' @ quote p))
           | [] \<Rightarrow> Inr (body (\<lambda>p. case map_of kwargs p of Some v \<Rightarrow> v | None \<Rightarrow> []))))"

datatype reply =
    Reply json
  | AutoOptions
  | HttpError nat
  | Raised py_exception

datatype dcim_endpoint = Ep_get_rack_power | Ep_get_temperature | Ep_get_cooling_status | Ep_health_check

definition dcim_url_map :: "(string \<times> http_method list \<times> dcim_endpoint) list" where
  "dcim_url_map =
     [(''/api/v2/racks/power'', [GET], Ep_get_rack_power),
      (''/nlyte/api/v1/sensors/temperature'', [GET], Ep_get_temperature),
      (''/nlyte/api/v1/cooling/units'', [GET], Ep_get_cooling_status),
      (''/health'', [GET], Ep_health_check)]"

fun dcim_view :: "dcim_endpoint \<Rightarrow> dcim_state \<Rightarrow> json \<times> dcim_state" where
  "dcim_view Ep_get_rack_power = get_rack_power"
| "dcim_view Ep_get_temperature = get_temperature"
| "dcim_view Ep_get_cooling_status = get_cooling_status"
| "dcim_view Ep_health_check = health_check"

text \<open>None of the four views takes a parameter.\<close>

definition dcim_dispatch :: "request \<Rightarrow> dcim_state \<Rightarrow> reply \<times> dcim_state" where
  "dcim_dispatch r s =
     (case lookup_rule dcim_url_map (req_method r) (req_path r) False of
        Inl code \<Rightarrow> (HttpError code, s)
      | Inr (e, args) \<Rightarrow>
          (if req_method r = OPTIONS then (AutoOptions, s)
           else (case call_view [] args (\<lambda>arg. dcim_view e) of
                   Inl exc \<Rightarrow> (Raised exc, s)
                 | Inr view \<Rightarrow> (let (body, s') = view s in (Reply body, s')))))"

text \<open>The development server handles one request after the other.\<close>

fun dcim_serve :: "request list \<Rightarrow> dcim_state \<Rightarrow> reply list \<times> dcim_state" where
  "dcim_serve [] s = ([], s)"
| "dcim_serve (r # rs) s =
     (let (a, s') = dcim_dispatch r s; (as, s'') = dcim_serve rs s' in (a # as, s''))"

definition get_request :: "string \<Rightarrow> (string \<times> string) list \<Rightarrow> request" where
  "get_request path q = \<lparr>req_method = GET, req_path = path, req_query = q\<rparr>"

section \<open>ServerTest: the demo REST API\<close>

text \<open>
  The API reads the wall clock and makes one kind of outgoing call,
  \<open>requests.get\<close>. What the network answers is not the program's to decide: it is a tape
  of outcomes, one taken per call, and every call made is recorded in \<open>sent\<close>.
  Console output (\<open>print\<close>) is left out; the subscripts evaluated inside the printed
  f-strings are kept, since they can raise.
\<close>

datatype http_outcome =
    Responded int "string + json"
  | ConnectionRefused string
  | RequestFailed string

record api_state =
  api_clock :: "datetime stream"
  network :: "http_outcome stream"
  sent :: "string list"

text \<open>
  \<open>Responded code body\<close>: a response arrived; \<open>body\<close> is what \<open>response.json()\<close>
  gives, \<open>Inl msg\<close> when decoding raises an exception whose text is \<open>msg\<close>.
  \<open>ConnectionRefused msg\<close>: \<open>requests.get\<close> raised
  \<open>requests.exceptions.ConnectionError\<close>. \<open>RequestFailed msg\<close>: it raised any other
  exception.
\<close>

definition requests_get :: "string \<Rightarrow> api_state \<Rightarrow> http_outcome \<times> api_state" where
  "requests_get url s = (shd (network s), s\<lparr>network := stl (network s), sent := sent s @ [url]\<rparr>)"

definition server_response :: json where
  "server_response = JObj [(''message'', JStr '' server ping message !''), (''status'', JStr ''success'')]"

definition get_alert :: "string \<Rightarrow> json" where
  "get_alert name = JObj
     [(''message'', JStr (''Alert, '' @ name @ ''!'')),
      (''status'', JStr ''success''),
      (''name'', JStr name)]"

text \<open>\<open>strftime("%Y-%m-%dT%H:%M:%SZ")\<close>.\<close>

definition strftime_metrics :: "datetime \<Rightarrow> string" where
  "strftime_metrics d =
     fmt_0d 4 (int (year d)) @ ''-'' @ fmt_0d 2 (int (month d)) @ ''-'' @ fmt_0d 2 (int (day d))
     @ ''T'' @ fmt_0d 2 (int (hour d)) @ '':'' @ fmt_0d 2 (int (minute d)) @ '':''
     @ fmt_0d 2 (int (second d)) @ ''Z''"

definition get_current_metrics :: "api_state \<Rightarrow> json \<times> api_state" where
  "get_current_metrics s =
     (let t = shd (api_clock s); s' = s\<lparr>api_clock := stl (api_clock s)\<rparr>;
          data = JObj
            [(''cpu_usage'', JStr ''45%''),
             (''memory_usage'', JStr ''67%''),
             (''disk_space'', JStr ''23GB free''),
             (''uptime'', JStr ''5 days, 3 hours''),
             (''timestamp'', JStr (strftime_metrics t))]
      in (data, s'))"

text \<open>
  \<open>metrics_data[key]\<close> on whatever the decoded body is: a dict answers or raises
  \<open>KeyError\<close>, anything else raises \<open>TypeError\<close>. \<open>str(e)\<close> of a \<open>KeyError\<close> is the
  quoted key.
\<close>

fun getitem :: "json \<Rightarrow> string \<Rightarrow> py_exception + json" where
  "getitem (JObj kvs) k = (case map_of kvs k of None \<Rightarrow> Inl (KeyError k) | Some v \<Rightarrow> Inr v)"
| "getitem JNull k = Inl (TypeError (quote ''NoneType'' @ '' object is not subscriptable''))"
| "getitem (JInt i) k = Inl (TypeError (quote ''int'' @ '' object is not subscriptable''))"
| "getitem (JNum q) k = Inl (TypeError (quote ''float'' @ '' object is not subscriptable''))"
| "getitem (JStr s) k = Inl (TypeError (''string indices must be integers, not '' @ quote ''str''))"
| "getitem (JArr xs) k = Inl (TypeError ''list indices must be integers or slices, not str'')"

fun str_exc :: "py_exception \<Rightarrow> string" where
  "str_exc (TypeError msg) = msg"
| "str_exc (KeyError k) = quote k"
| "str_exc (ImportError msg) = msg"
| "str_exc (ConnectionError msg) = msg"
| "str_exc (OtherException msg) = msg"
| "str_exc KeyboardInterrupt = []"
| "str_exc (SystemExit status) = str_int status"

text \<open>The five subscripts of the printing block, in order; the first that raises ends it.\<close>

fun first_failure :: "json \<Rightarrow> string list \<Rightarrow> py_exception option" where
  "first_failure d [] = None"
| "first_failure d (k # ks) = (case getitem d k of Inl e \<Rightarrow> Some e | Inr v \<Rightarrow> first_failure d ks)"

definition get_remote_metrics :: "api_state \<Rightarrow> json \<times> api_state" where
  "get_remote_metrics s =
     (let (outcome, s') = requests_get ''http://localhost:9000/api/metrics'' s
      in (case outcome of
            Responded status_code body \<Rightarrow>
              (if status_code = 200
               then (case body of
                       Inl msg \<Rightarrow> (JObj [(''error'', JStr msg)], s')
                     | Inr metrics_data \<Rightarrow>
                         (case first_failure metrics_data
                                 [''cpu_usage'', ''memory_usage'', ''disk_space'', ''uptime'', ''timestamp''] of
                            Some e \<Rightarrow> (JObj [(''error'', JStr (str_exc e))], s')
                          | None \<Rightarrow>
                              (JObj [(''source'', JStr ''HTTP Request''),
                                     (''method'', JStr ''GET /api/metrics''),
                                     (''data'', metrics_data),
                                     (''status'', JStr ''success'')], s')))
               else (JObj [(''error'', JStr ''Failed to fetch metrics''),
                           (''status_code'', JInt status_code)], s'))
          | ConnectionRefused msg \<Rightarrow>
              (JObj [(''error'', JStr ''Connection failed - make sure server is running''),
                     (''message'', JStr ''Try accessing /api/metrics first'')], s')
          | RequestFailed msg \<Rightarrow> (JObj [(''error'', JStr msg)], s')))"

definition post_hello :: json where
  "post_hello = JObj [(''message'', JStr ''Hello from POST request!''), (''method'', JStr ''POST'')]"

datatype api_endpoint =
  Ep_server_response | Ep_get_alert | Ep_get_current_metrics | Ep_get_remote_metrics | Ep_post_hello

text \<open>\<open>setup_routes\<close>: the rules in the order the decorators run.\<close>

definition api_url_map :: "(string \<times> http_method list \<times> api_endpoint) list" where
  "api_url_map =
     [(''/api/response'', [GET], Ep_server_response),
      (''/api/server_alert'', [GET], Ep_get_alert),
      (''/api/metrics'', [GET], Ep_get_current_metrics),
      (''/api/metrics/remote'', [GET], Ep_get_remote_metrics),
      (''/api/hello'', [POST], Ep_post_hello)]"

text \<open>Each view with the parameter list of its \<open>def\<close>: only \<open>get_alert(name)\<close> has one.\<close>

fun api_view ::
  "api_endpoint \<Rightarrow> (string \<times> string) list \<Rightarrow> py_exception + (api_state \<Rightarrow> json \<times> api_state)" where
  "api_view Ep_server_response args = call_view [] args (\<lambda>arg s. (server_response, s))"
| "api_view Ep_get_alert args = call_view [''name''] args (\<lambda>arg s. (get_alert (arg ''name''), s))"
| "api_view Ep_get_current_metrics args = call_view [] args (\<lambda>arg. get_current_metrics)"
| "api_view Ep_get_remote_metrics args = call_view [] args (\<lambda>arg. get_remote_metrics)"
| "api_view Ep_post_hello args = call_view [] args (\<lambda>arg s. (post_hello, s))"

definition api_dispatch :: "request \<Rightarrow> api_state \<Rightarrow> reply \<times> api_state" where
  "api_dispatch r s =
     (case lookup_rule api_url_map (req_method r) (req_path r) False of
        Inl code \<Rightarrow> (HttpError code, s)
      | Inr (e, args) \<Rightarrow>
          (if req_method r = OPTIONS then (AutoOptions, s)
           else (case api_view e args of
                   Inl exc \<Rightarrow> (Raised exc, s)
                 | Inr view \<Rightarrow> (let (body, s') = view s in (Reply body, s')))))"

section \<open>EnvSetup: the command line\<close>

subsection \<open>Arguments\<close>







subsection \<open>The modes\<close>








subsection \<open>main and the script's last block\<close>











section \<open>Reading replies\<close>

fun reply_body :: "reply \<Rightarrow> json option" where
  "reply_body (Reply body) = Some body"
| "reply_body AutoOptions = None"
| "reply_body (HttpError code) = None"
| "reply_body (Raised e) = None"

definition reply_field :: "string \<Rightarrow> reply \<Rightarrow> json option" where
  "reply_field k r = (case reply_body r of None \<Rightarrow> None | Some body \<Rightarrow> field k body)"

text \<open>The list a reply carries under a key, when it carries one.\<close>

definition reply_items :: "string \<Rightarrow> reply \<Rightarrow> json list option" where
  "reply_items k r = (case reply_field k r of Some (JArr xs) \<Rightarrow> Some xs | _ \<Rightarrow> None)"

text \<open>The timestamp strings of a run of replies, in order.\<close>

fun json_string :: "json \<Rightarrow> string option" where
  "json_string (JStr s) = Some s"
| "json_string JNull = None"
| "json_string (JInt i) = None"
| "json_string (JNum q) = None"
| "json_string (JArr xs) = None"
| "json_string (JObj kvs) = None"

definition timestamps :: "reply list \<Rightarrow> string list" where
  "timestamps rs =
     List.map_filter (\<lambda>r. case reply_field ''timestamp'' r of None \<Rightarrow> None | Some v \<Rightarrow> json_string v) rs"

text \<open>A JSON object with one key left out.\<close>

fun without_key :: "string \<Rightarrow> json \<Rightarrow> json" where
  "without_key k (JObj kvs) = JObj (filter (\<lambda>kv. fst kv \<noteq> k) kvs)"
| "without_key k JNull = JNull"
| "without_key k (JInt i) = JInt i"
| "without_key k (JNum q) = JNum q"
| "without_key k (JStr s) = JStr s"
| "without_key k (JArr xs) = JArr xs"

subsection \<open>Wall-clock readings\<close>

text \<open>
  The field ranges of a Python \<open>datetime\<close>, and the chronological order of two
  readings: year first, microsecond last.
\<close>

definition valid_datetime :: "datetime \<Rightarrow> bool" where
  "valid_datetime d \<longleftrightarrow>
     1 \<le> year d \<and> year d \<le> 9999 \<and> 1 \<le> month d \<and> month d \<le> 12 \<and> 1 \<le> day d \<and> day d \<le> 31
     \<and> hour d < 24 \<and> minute d < 60 \<and> second d < 60 \<and> microsecond d < 1000000"

definition dt_key :: "datetime \<Rightarrow> nat list" where
  "dt_key d = [year d, month d, day d, hour d, minute d, second d, microsecond d]"

definition not_later :: "datetime \<Rightarrow> datetime \<Rightarrow> bool" where
  "not_later a b \<longleftrightarrow> dt_key a \<le> dt_key b"

subsection \<open>Telemetry views\<close>

fun telemetry :: "dcim_endpoint \<Rightarrow> bool" where
  "telemetry Ep_get_rack_power = True"
| "telemetry Ep_get_temperature = True"
| "telemetry Ep_get_cooling_status = True"
| "telemetry Ep_health_check = False"

subsection \<open>Concrete runs\<close>

definition epoch :: datetime where
  "epoch = \<lparr>year = 1970, month = 1, day = 1, hour = 0, minute = 0, second = 0, microsecond = 0\<rparr>"

definition boot :: dcim_state where
  "boot = \<lparr>rng = sconst 0, clock = sconst epoch, log = []\<rparr>"

text \<open>
  A night on which local time is set back an hour: the clock reads 01:59:59.5 and, at
  the next request, 01:00:00.25.
\<close>

definition before_setback :: datetime where
  "before_setback =
     \<lparr>year = 2024, month = 11, day = 3, hour = 1, minute = 59, second = 59, microsecond = 500000\<rparr>"

definition after_setback :: datetime where
  "after_setback =
     \<lparr>year = 2024, month = 11, day = 3, hour = 1, minute = 0, second = 0, microsecond = 250000\<rparr>"

definition setback_night :: dcim_state where
  "setback_night = \<lparr>rng = sconst 0, clock = before_setback ## sconst after_setback, log = []\<rparr>"

definition offline :: api_state where
  "offline = \<lparr>api_clock = sconst epoch, network = sconst (ConnectionRefused ''Connection refused''),
     sent = []\<rparr>"

subsection \<open>Rules without a variable\<close>

definition static_rule :: "string \<times> http_method list \<times> 'e \<Rightarrow> bool" where
  "static_rule r = list_all (\<lambda>p. rule_variable p = None) (split_slash (fst r))"

subsection \<open>Timestamps\<close>

text \<open>The \<open>w\<close> low decimal digits of a number, most significant first.\<close>

fun digs :: "nat \<Rightarrow> nat \<Rightarrow> string" where
  "digs 0 n = []"
| "digs (Suc w) n = digs w (n div 10) @ [digit (n mod 10)]"

text \<open>The reply of \<open>health_check\<close> when the clock reads \<open>t\<close>.\<close>

definition health_reply :: "datetime \<Rightarrow> reply" where
  "health_reply t = Reply (JObj [(''status'', JStr ''healthy''),
                                 (''service'', JStr ''Mock DCIM Server''),
                                 (''timestamp'', JStr (isoformat t))])"

text \<open>The same two clock readings as in \<open>setback_night\<close>, in chronological order.\<close>

definition forward_night :: dcim_state where
  "forward_night = \<lparr>rng = sconst 0, clock = after_setback ## sconst before_setback, log = []\<rparr>"

section \<open>Properties of the mock DCIM server\<close>

subsection \<open>Routing and the random source\<close>

lemma call_view_nil: "call_view [] [] body = Inr (body (\<lambda>p. []))"
  by (simp add: call_view_def)

lemma route_power: "lookup_rule dcim_url_map GET ''/api/v2/racks/power'' False = Inr (Ep_get_rack_power, [])"
  by code_simp

lemma route_temperature:
  "lookup_rule dcim_url_map GET ''/nlyte/api/v1/sensors/temperature'' False = Inr (Ep_get_temperature, [])"
  by code_simp

lemma route_cooling:
  "lookup_rule dcim_url_map GET ''/nlyte/api/v1/cooling/units'' False = Inr (Ep_get_cooling_status, [])"
  by code_simp

lemma route_health: "lookup_rule dcim_url_map GET ''/health'' False = Inr (Ep_health_check, [])"
  by code_simp

lemma dispatch_power:
  "dcim_dispatch (get_request ''/api/v2/racks/power'' q) s =
     (Reply (fst (get_rack_power s)), snd (get_rack_power s))"
  by (simp add: dcim_dispatch_def get_request_def route_power call_view_nil split_def Let_def)

lemma dispatch_temperature:
  "dcim_dispatch (get_request ''/nlyte/api/v1/sensors/temperature'' q) s =
     (Reply (fst (get_temperature s)), snd (get_temperature s))"
  by (simp add: dcim_dispatch_def get_request_def route_temperature call_view_nil split_def Let_def)

lemma dispatch_cooling:
  "dcim_dispatch (get_request ''/nlyte/api/v1/cooling/units'' q) s =
     (Reply (fst (get_cooling_status s)), snd (get_cooling_status s))"
  by (simp add: dcim_dispatch_def get_request_def route_cooling call_view_nil split_def Let_def)

lemma dispatch_health:
  "dcim_dispatch (get_request ''/health'' q) s = (Reply (fst (health_check s)), snd (health_check s))"
  by (simp add: dcim_dispatch_def get_request_def route_health call_view_nil split_def Let_def)

lemma randint_range: "a \<le> b \<Longrightarrow> a \<le> fst (randint a b g) \<and> fst (randint a b g) \<le> b"
  unfolding randint_def randbelow_def Let_def split_def fst_conv
proof -
  assume ab: "a \<le> b"
  have "0 < nat (b - a + 1)" using ab by simp
  then have "shd g mod nat (b - a + 1) < nat (b - a + 1)" by simp
  then show "a \<le> a + int (shd g mod nat (b - a + 1)) \<and> a + int (shd g mod nat (b - a + 1)) \<le> b"
    using ab by linarith
qed

lemma snd_randint: "snd (randint a b g) = stl g"
  by (simp add: randint_def randbelow_def)

lemma snd_choice: "snd (choice xs g) = stl g"
  by (simp add: choice_def randbelow_def)

lemma snd_uniform: "snd (uniform a b g) = stl g"
  by (simp add: uniform_def random_def randbelow_def)

lemma rack_power_body:
  "fst (get_rack_power s) = JObj [(''racks'', JArr
     [rack_record 1 (fst (randint 7500 8500 (rng s))),
      rack_record 2 (fst (randint 7500 8500 (stl (rng s)))),
      rack_record 3 (fst (randint 7500 8500 (stl (stl (rng s)))))])]"
  by (simp add: get_rack_power_def split_def Let_def snd_randint)

lemma rack_fields:
  "field ''power_consumption_watts'' (rack_record i w) = Some (JInt w)"
  "field ''pdu_status'' (rack_record i w) = Some (JStr ''operational'')"
  by (simp_all add: rack_record_def)

lemma rack_ids:
  "field ''id'' (rack_record 1 w) = Some (JStr ''rack-01'')"
  "field ''id'' (rack_record 2 w) = Some (JStr ''rack-02'')"
  "field ''id'' (rack_record 3 w) = Some (JStr ''rack-03'')"
  by (simp_all add: rack_record_def fmt_0d_def digit_def)

subsection \<open>Rack power readings\<close>

text \<open>
  C1, as stated: every rack record carries an integer wattage between 7500 and 8500, and
  the number of records equals the count the caller asks for (3 by default).
  The view has no count input: it runs \<open>range(1, 4)\<close> whatever the request says. A
  request that asks for 5 racks is answered with 3.
\<close>

theorem rack_count_ignores_request:
  "map_option length (reply_items ''racks''
      (fst (dcim_dispatch (get_request ''/api/v2/racks/power'' [(''count'', ''5'')]) boot))) = Some 3
   \<and> map_option length (reply_items ''racks''
      (fst (dcim_dispatch (get_request ''/api/v2/racks/power'' [(''count'', ''5'')]) boot))) \<noteq> Some 5"
  by (simp add: dispatch_power rack_power_body reply_items_def reply_field_def)

text \<open>
  C1, amended: whatever the query string, the power endpoint answers with exactly three
  rack records, identified \<open>rack-01\<close>, \<open>rack-02\<close>, \<open>rack-03\<close> in this order, and each
  carries an integer wattage \<open>w\<close> with \<open>7500 \<le> w \<le> 8500\<close>.
\<close>

theorem rack_power_readings:
  "\<exists>racks s'.
     dcim_dispatch (get_request ''/api/v2/racks/power'' q) s = (Reply (JObj [(''racks'', JArr racks)]), s')
     \<and> length racks = 3
     \<and> map (field ''id'') racks = [Some (JStr ''rack-01''), Some (JStr ''rack-02''), Some (JStr ''rack-03'')]
     \<and> (\<forall>x \<in> set racks. \<exists>w. field ''power_consumption_watts'' x = Some (JInt w) \<and> 7500 \<le> w \<and> w \<le> 8500)"
proof -
  let ?w1 = "fst (randint 7500 8500 (rng s))"
  let ?w2 = "fst (randint 7500 8500 (stl (rng s)))"
  let ?w3 = "fst (randint 7500 8500 (stl (stl (rng s))))"
  let ?racks = "[rack_record 1 ?w1, rack_record 2 ?w2, rack_record 3 ?w3]"
  have r: "7500 \<le> ?w1 \<and> ?w1 \<le> 8500" "7500 \<le> ?w2 \<and> ?w2 \<le> 8500" "7500 \<le> ?w3 \<and> ?w3 \<le> 8500"
    by (rule randint_range, simp)+
  have a: "dcim_dispatch (get_request ''/api/v2/racks/power'' q) s
          = (Reply (JObj [(''racks'', JArr ?racks)]), snd (get_rack_power s))"
    by (simp only: dispatch_power rack_power_body)
  have b: "length ?racks = 3" by simp
  have c: "map (field ''id'') ?racks = [Some (JStr ''rack-01''), Some (JStr ''rack-02''), Some (JStr ''rack-03'')]"
    by (simp add: rack_ids)
  have e: "\<forall>x \<in> set ?racks. \<exists>w. field ''power_consumption_watts'' x = Some (JInt w) \<and> 7500 \<le> w \<and> w \<le> 8500"
    using r by (simp add: rack_fields)
  show ?thesis
    by (rule exI[of _ ?racks], rule exI[of _ "snd (get_rack_power s)"]) (intro conjI a b c e)
qed

theorem rack_power_readings_witness:
  "\<exists>racks s'.
     dcim_dispatch (get_request ''/api/v2/racks/power'' []) boot = (Reply (JObj [(''racks'', JArr racks)]), s')
     \<and> racks \<noteq> []
     \<and> (\<forall>x \<in> set racks. \<exists>w. field ''power_consumption_watts'' x = Some (JInt w) \<and> 7500 \<le> w \<and> w \<le> 8500)"
  using rack_power_readings [of "[]" boot] by fastforce

subsection \<open>The power endpoint end to end\<close>

text \<open>
  C4: every GET request to \<open>/api/v2/racks/power\<close> is answered with a JSON object whose
  \<open>racks\<close> field is a list of length 3, and every element of the list has the field
  \<open>pdu_status\<close> equal to the string \<open>operational\<close>.
\<close>

theorem rack_power_endpoint_shape:
  "\<exists>racks s'.
     dcim_dispatch (get_request ''/api/v2/racks/power'' q) s = (Reply (JObj [(''racks'', JArr racks)]), s')
     \<and> length racks = 3
     \<and> (\<forall>x \<in> set racks. field ''pdu_status'' x = Some (JStr ''operational''))"
proof -
  let ?w1 = "fst (randint 7500 8500 (rng s))"
  let ?w2 = "fst (randint 7500 8500 (stl (rng s)))"
  let ?w3 = "fst (randint 7500 8500 (stl (stl (rng s))))"
  let ?racks = "[rack_record 1 ?w1, rack_record 2 ?w2, rack_record 3 ?w3]"
  have a: "dcim_dispatch (get_request ''/api/v2/racks/power'' q) s
          = (Reply (JObj [(''racks'', JArr ?racks)]), snd (get_rack_power s))"
    by (simp only: dispatch_power rack_power_body)
  have b: "length ?racks = 3" by simp
  have c: "\<forall>x \<in> set ?racks. field ''pdu_status'' x = Some (JStr ''operational'')"
    by (simp add: rack_fields)
  show ?thesis
    by (rule exI[of _ ?racks], rule exI[of _ "snd (get_rack_power s)"]) (intro conjI a b c)
qed

theorem rack_power_endpoint_shape_witness:
  "\<exists>racks s'.
     dcim_dispatch (get_request ''/api/v2/racks/power'' []) boot = (Reply (JObj [(''racks'', JArr racks)]), s')
     \<and> racks \<noteq> []
     \<and> (\<forall>x \<in> set racks. field ''pdu_status'' x = Some (JStr ''operational''))"
  using rack_power_endpoint_shape [of "[]" boot] by fastforce


subsection \<open>Temperature readings\<close>

lemma random_range: "0 \<le> fst (random g) \<and> fst (random g) < 1"
proof -
  have "shd g mod 2 ^ 53 < (2::nat) ^ 53" by simp
  then have "(of_nat (shd g mod 2 ^ 53) :: rat) < of_nat (2 ^ 53)"
    by (simp only: of_nat_less_iff)
  then show ?thesis
    by (simp add: random_def randbelow_def)
qed

lemma uniform_range: "a \<le> b \<Longrightarrow> a \<le> fst (uniform a b g) \<and> fst (uniform a b g) \<le> b"
proof -
  assume ab: "a \<le> b"
  let ?u = "fst (random g)"
  have u: "0 \<le> ?u" "?u \<le> 1" using random_range [of g] by simp_all
  have 1: "0 \<le> (b - a) * ?u" using ab u by simp
  have "(b - a) * ?u \<le> (b - a) * 1"
    using ab u by (intro mult_left_mono) simp_all
  then have 2: "(b - a) * ?u \<le> b - a" by simp
  show ?thesis using 1 2 by (simp add: uniform_def split_def Let_def)
qed

lemma round_half_even_bounds:
  assumes "of_int a \<le> q" and "q \<le> of_int b"
  shows "a \<le> round_half_even q \<and> round_half_even q \<le> b"
proof -
  have f1: "a \<le> \<lfloor>q\<rfloor>" using assms(1) by (simp add: le_floor_iff)
  have f2: "\<lfloor>q\<rfloor> \<le> b" using assms(2) by (simp add: floor_le_iff)
  show ?thesis
  proof (cases "q = of_int b")
    case True
    then show ?thesis using f1 by (simp add: round_half_even_def)
  next
    case False
    then have "q < of_int b" using assms(2) by simp
    then have "\<lfloor>q\<rfloor> < b" by (simp add: floor_less_iff)
    then show ?thesis using f1 by (simp add: round_half_even_def Let_def)
  qed
qed

lemma round1_range:
  assumes "20 \<le> x" and "x \<le> 30"
  shows "20 \<le> round1 x \<and> round1 x \<le> 30 \<and> (\<exists>k::int. round1 x * 10 = of_int k)"
proof -
  have "of_int 200 \<le> x * 10" "x * 10 \<le> of_int 300" using assms by simp_all
  then have "200 \<le> round_half_even (x * 10) \<and> round_half_even (x * 10) \<le> 300"
    by (rule round_half_even_bounds)
  then have "(of_int 200 :: rat) \<le> of_int (round_half_even (x * 10))"
    and "(of_int (round_half_even (x * 10)) :: rat) \<le> of_int 300"
    by (simp_all only: of_int_le_iff)
  then show ?thesis by (simp add: round1_def)
qed

lemma reading_range:
  "20 \<le> round1 (fst (uniform 20 30 g)) \<and> round1 (fst (uniform 20 30 g)) \<le> 30
   \<and> (\<exists>k::int. round1 (fst (uniform 20 30 g)) * 10 = of_int k)"
proof -
  have "20 \<le> fst (uniform 20 30 g) \<and> fst (uniform 20 30 g) \<le> 30"
    by (rule uniform_range) simp
  then show ?thesis using round1_range by blast
qed

lemma enumerate_pairs:
  "enumerate_from0 (zip locations types) =
     [(0, ''rack-01'', ''ambient''), (1, ''rack-02'', ''supply''), (2, ''server-room'', ''return'')]"
  by (simp add: enumerate_from0_def locations_def types_def upt_rec)

lemma temperature_body:
  "fst (get_temperature s) = JObj [(''sensors'', JArr
     [sensor_record 0 ''rack-01'' ''ambient'' (round1 (fst (uniform 20 30 (rng s)))),
      sensor_record 1 ''rack-02'' ''supply'' (round1 (fst (uniform 20 30 (stl (rng s))))),
      sensor_record 2 ''server-room'' ''return'' (round1 (fst (uniform 20 30 (stl (stl (rng s))))))])]"
  by (simp add: get_temperature_def enumerate_pairs split_def Let_def snd_uniform)

lemma sensor_fields:
  "field ''location'' (sensor_record i loc ty t) = Some (JStr loc)"
  "field ''type'' (sensor_record i loc ty t) = Some (JStr ty)"
  "field ''temperature_celsius'' (sensor_record i loc ty t) = Some (JNum t)"
  by (simp_all add: sensor_record_def)

text \<open>
  C2: every call of the temperature view returns exactly 3 records; their (location,
  type) pairs are pairwise distinct and are the pairs of the fixed lists taken position by
  position; each temperature \<open>t\<close> has \<open>20 \<le> t \<le> 30\<close> and at most one decimal digit
  (\<open>10 t\<close> is an integer). Temperatures are exact rationals here.
\<close>

theorem temperature_readings:
  "\<exists>sensors s'.
     dcim_dispatch (get_request ''/nlyte/api/v1/sensors/temperature'' q) s
       = (Reply (JObj [(''sensors'', JArr sensors)]), s')
     \<and> length sensors = 3
     \<and> map (\<lambda>x. (field ''location'' x, field ''type'' x)) sensors
         = zip (map (\<lambda>l. Some (JStr l)) locations) (map (\<lambda>t. Some (JStr t)) types)
     \<and> distinct (map (\<lambda>x. (field ''location'' x, field ''type'' x)) sensors)
     \<and> (\<forall>x \<in> set sensors. \<exists>t. field ''temperature_celsius'' x = Some (JNum t)
           \<and> 20 \<le> t \<and> t \<le> 30 \<and> (\<exists>k::int. t * 10 = of_int k))"
proof -
  let ?t1 = "round1 (fst (uniform 20 30 (rng s)))"
  let ?t2 = "round1 (fst (uniform 20 30 (stl (rng s))))"
  let ?t3 = "round1 (fst (uniform 20 30 (stl (stl (rng s)))))"
  let ?sensors = "[sensor_record 0 ''rack-01'' ''ambient'' ?t1,
                   sensor_record 1 ''rack-02'' ''supply'' ?t2,
                   sensor_record 2 ''server-room'' ''return'' ?t3]"
  have a: "dcim_dispatch (get_request ''/nlyte/api/v1/sensors/temperature'' q) s
          = (Reply (JObj [(''sensors'', JArr ?sensors)]), snd (get_temperature s))"
    by (simp only: dispatch_temperature temperature_body)
  have b: "length ?sensors = 3" by simp
  have c: "map (\<lambda>x. (field ''location'' x, field ''type'' x)) ?sensors
         = zip (map (\<lambda>l. Some (JStr l)) locations) (map (\<lambda>t. Some (JStr t)) types)"
    by (simp add: sensor_fields locations_def types_def)
  have d: "distinct (map (\<lambda>x. (field ''location'' x, field ''type'' x)) ?sensors)"
    by (simp add: sensor_fields)
  have e: "\<forall>x \<in> set ?sensors. \<exists>t. field ''temperature_celsius'' x = Some (JNum t)
           \<and> 20 \<le> t \<and> t \<le> 30 \<and> (\<exists>k::int. t * 10 = of_int k)"
    using reading_range [of "rng s"] reading_range [of "stl (rng s)"] reading_range [of "stl (stl (rng s))"]
    by (simp add: sensor_fields)
  show ?thesis
    by (rule exI[of _ ?sensors], rule exI[of _ "snd (get_temperature s)"]) (intro conjI a b c d e)
qed

theorem temperature_readings_witness:
  "\<exists>sensors s'.
     dcim_dispatch (get_request ''/nlyte/api/v1/sensors/temperature'' []) boot
       = (Reply (JObj [(''sensors'', JArr sensors)]), s')
     \<and> sensors \<noteq> []
     \<and> (\<forall>x \<in> set sensors. \<exists>t. field ''temperature_celsius'' x = Some (JNum t)
           \<and> 20 \<le> t \<and> t \<le> 30 \<and> (\<exists>k::int. t * 10 = of_int k))"
proof -
  from temperature_readings [of "[]" boot] obtain sensors s' where
    a: "dcim_dispatch (get_request ''/nlyte/api/v1/sensors/temperature'' []) boot
       = (Reply (JObj [(''sensors'', JArr sensors)]), s')"
    and b: "length sensors = 3"
    and c: "\<forall>x \<in> set sensors. \<exists>t. field ''temperature_celsius'' x = Some (JNum t)
           \<and> 20 \<le> t \<and> t \<le> 30 \<and> (\<exists>k::int. t * 10 = of_int k)"
    by (elim exE conjE)
  from b have d: "sensors \<noteq> []" by auto
  show ?thesis
    by (rule exI[of _ sensors], rule exI[of _ s']) (intro conjI a d c)
qed



subsection \<open>Cooling units\<close>

lemma choice_status:
  "fst (choice status_choices g) = status_choices ! (shd g mod 4)"
  by (simp add: choice_def randbelow_def status_choices_def)

lemma status_choices_nth:
  "status_choices ! (r mod 4) = (if r mod 4 = 3 then ''warning'' else ''operational'')"
proof -
  have "r mod 4 = 0 \<or> r mod 4 = 1 \<or> r mod 4 = 2 \<or> r mod 4 = 3" by presburger
  then show ?thesis by (elim disjE) (simp_all add: status_choices_def)
qed

lemma cooling_body:
  "fst (get_cooling_status s) = JObj [(''cooling_units'', JArr
     [cooling_record 1 (status_choices ! (shd (rng s) mod 4)) (fst (randint 60 85 (stl (rng s)))),
      cooling_record 2 (status_choices ! (shd (stl (stl (rng s))) mod 4)) (fst (randint 60 85 (stl (stl (stl (rng s)))))),
      cooling_record 3 (status_choices ! (shd (stl (stl (stl (stl (rng s))))) mod 4)) (fst (randint 60 85 (stl (stl (stl (stl (stl (rng s))))))))])]"
  by (simp add: get_cooling_status_def split_def Let_def snd_randint snd_choice choice_status)

lemma cooling_fields:
  "field ''status'' (cooling_record i st l) = Some (JStr st)"
  "field ''capacity_kw'' (cooling_record i st l) = Some (JInt 50)"
  "field ''current_load_percent'' (cooling_record i st l) = Some (JInt l)"
  by (simp_all add: cooling_record_def)

text \<open>
  C3: every cooling-unit record of the cooling endpoint has an integer
  \<open>current_load_percent\<close> between 60 and 85, \<open>capacity_kw\<close> equal to 50 and a status
  that is \<open>operational\<close> or \<open>warning\<close>; the status of each unit is the entry of the
  4-element list \<open>[operational, operational, operational, warning]\<close> at the position a
  raw draw picks modulo 4, so three of the four equally likely positions give
  \<open>operational\<close>.
\<close>

theorem cooling_readings:
  "\<exists>units s'.
     dcim_dispatch (get_request ''/nlyte/api/v1/cooling/units'' q) s
       = (Reply (JObj [(''cooling_units'', JArr units)]), s')
     \<and> map (field ''status'') units
         = map (\<lambda>r. Some (JStr (status_choices ! (r mod 4)))) [shd (rng s), shd (stl (stl (rng s))), shd (stl (stl (stl (stl (rng s)))))]
     \<and> (\<forall>x \<in> set units.
           field ''capacity_kw'' x = Some (JInt 50)
         \<and> (\<exists>l. field ''current_load_percent'' x = Some (JInt l) \<and> 60 \<le> l \<and> l \<le> 85)
         \<and> (field ''status'' x = Some (JStr ''operational'') \<or> field ''status'' x = Some (JStr ''warning'')))"
proof -
  let ?l1 = "fst (randint 60 85 (stl (rng s)))"
  let ?l2 = "fst (randint 60 85 (stl (stl (stl (rng s)))))"
  let ?l3 = "fst (randint 60 85 (stl (stl (stl (stl (stl (rng s)))))))"
  let ?units = "[cooling_record 1 (status_choices ! (shd (rng s) mod 4)) ?l1,
                 cooling_record 2 (status_choices ! (shd (stl (stl (rng s))) mod 4)) ?l2,
                 cooling_record 3 (status_choices ! (shd (stl (stl (stl (stl (rng s))))) mod 4)) ?l3]"
  have r: "60 \<le> ?l1 \<and> ?l1 \<le> 85" "60 \<le> ?l2 \<and> ?l2 \<le> 85" "60 \<le> ?l3 \<and> ?l3 \<le> 85"
    by (rule randint_range, simp)+
  have a: "dcim_dispatch (get_request ''/nlyte/api/v1/cooling/units'' q) s
          = (Reply (JObj [(''cooling_units'', JArr ?units)]), snd (get_cooling_status s))"
    by (simp only: dispatch_cooling cooling_body)
  have b: "map (field ''status'') ?units
         = map (\<lambda>r. Some (JStr (status_choices ! (r mod 4)))) [shd (rng s), shd (stl (stl (rng s))), shd (stl (stl (stl (stl (rng s)))))]"
    by (simp add: cooling_fields)
  have c: "\<forall>x \<in> set ?units.
           field ''capacity_kw'' x = Some (JInt 50)
         \<and> (\<exists>l. field ''current_load_percent'' x = Some (JInt l) \<and> 60 \<le> l \<and> l \<le> 85)
         \<and> (field ''status'' x = Some (JStr ''operational'') \<or> field ''status'' x = Some (JStr ''warning''))"
    using r by (simp add: cooling_fields status_choices_nth)
  show ?thesis
    by (rule exI[of _ ?units], rule exI[of _ "snd (get_cooling_status s)"]) (intro conjI a b c)
qed

theorem cooling_readings_witness:
  "\<exists>units s'.
     dcim_dispatch (get_request ''/nlyte/api/v1/cooling/units'' []) boot
       = (Reply (JObj [(''cooling_units'', JArr units)]), s')
     \<and> units \<noteq> []
     \<and> (\<forall>x \<in> set units.
           field ''capacity_kw'' x = Some (JInt 50)
         \<and> (\<exists>l. field ''current_load_percent'' x = Some (JInt l) \<and> 60 \<le> l \<and> l \<le> 85)
         \<and> (field ''status'' x = Some (JStr ''operational'') \<or> field ''status'' x = Some (JStr ''warning'')))"
proof -
  from cooling_readings [of "[]" boot] obtain units s' where
    a: "dcim_dispatch (get_request ''/nlyte/api/v1/cooling/units'' []) boot
       = (Reply (JObj [(''cooling_units'', JArr units)]), s')"
    and b: "map (field ''status'') units
         = map (\<lambda>r. Some (JStr (status_choices ! (r mod 4)))) [shd (rng boot), shd (stl (stl (rng boot))), shd (stl (stl (stl (stl (rng boot)))))]"
    and c: "\<forall>x \<in> set units.
           field ''capacity_kw'' x = Some (JInt 50)
         \<and> (\<exists>l. field ''current_load_percent'' x = Some (JInt l) \<and> 60 \<le> l \<and> l \<le> 85)
         \<and> (field ''status'' x = Some (JStr ''operational'') \<or> field ''status'' x = Some (JStr ''warning''))"
    by (elim exE conjE)
  from b have d: "units \<noteq> []" by auto
  show ?thesis
    by (rule exI[of _ units], rule exI[of _ s']) (intro conjI a d c)
qed


subsection \<open>Independence of the telemetry views\<close>

lemma telemetry_reads_rng_only:
  assumes "telemetry e" and "rng a = rng b"
  shows "fst (dcim_view e a) = fst (dcim_view e b)
       \<and> rng (snd (dcim_view e a)) = rng (snd (dcim_view e b))"
proof (cases e)
  case Ep_get_rack_power
  then show ?thesis using assms(2)
    by (simp add: get_rack_power_def split_def Let_def logger_info_def)
next
  case Ep_get_temperature
  then show ?thesis using assms(2)
    by (simp add: get_temperature_def split_def Let_def logger_info_def)
next
  case Ep_get_cooling_status
  then show ?thesis using assms(2)
    by (simp add: get_cooling_status_def split_def Let_def logger_info_def)
next
  case Ep_health_check
  then show ?thesis using assms(1) by simp
qed

lemma telemetry_keeps_clock:
  assumes "telemetry e"
  shows "clock (snd (dcim_view e a)) = clock a"
proof (cases e)
  case Ep_get_rack_power
  then show ?thesis by (simp add: get_rack_power_def split_def Let_def logger_info_def)
next
  case Ep_get_temperature
  then show ?thesis by (simp add: get_temperature_def split_def Let_def logger_info_def)
next
  case Ep_get_cooling_status
  then show ?thesis by (simp add: get_cooling_status_def split_def Let_def logger_info_def)
next
  case Ep_health_check
  then show ?thesis using assms by simp
qed

text \<open>
  C9: a telemetry view (power, temperature, cooling) reads nothing of the program state
  but the random source, and writes nothing but the random source and the log, which no
  view reads. So after any run of earlier requests \<open>rs\<close>, its reply and the random
  source it leaves behind are those it gives from any state \<open>s'\<close> with the same random
  source, whatever came before; the clock is left as it was.
\<close>

theorem telemetry_stateless:
  assumes "telemetry e" and "rng s' = rng (snd (dcim_serve rs s))"
  shows "fst (dcim_view e (snd (dcim_serve rs s))) = fst (dcim_view e s')
       \<and> rng (snd (dcim_view e (snd (dcim_serve rs s)))) = rng (snd (dcim_view e s'))
       \<and> clock (snd (dcim_view e s')) = clock s'"
  using telemetry_reads_rng_only [OF assms(1), of "snd (dcim_serve rs s)" s'] assms(2)
    telemetry_keeps_clock [OF assms(1), of s']
  by simp

lemma cooling_then_rng:
  "rng (snd (dcim_serve [get_request ''/nlyte/api/v1/cooling/units'' []] boot)) = sconst 0"
  by (simp add: dispatch_cooling split_def get_cooling_status_def Let_def logger_info_def
        snd_randint snd_choice boot_def)

theorem telemetry_stateless_witness:
  "telemetry Ep_get_rack_power
   \<and> rng boot = rng (snd (dcim_serve [get_request ''/nlyte/api/v1/cooling/units'' []] boot))
   \<and> fst (dcim_view Ep_get_rack_power (snd (dcim_serve [get_request ''/nlyte/api/v1/cooling/units'' []] boot)))
       = fst (dcim_view Ep_get_rack_power boot)"
proof -
  have t: "telemetry Ep_get_rack_power" by simp
  have r: "rng boot = rng (snd (dcim_serve [get_request ''/nlyte/api/v1/cooling/units'' []] boot))"
    by (simp only: cooling_then_rng) (simp add: boot_def)
  from telemetry_stateless [OF t r] t r show ?thesis by simp
qed


section \<open>Properties of the demo REST API\<close>

subsection \<open>Rules without variables bind nothing\<close>

lemma static_segments_bind_nothing:
  "list_all (\<lambda>p. rule_variable p = None) ps \<Longrightarrow> match_segments ps xs = Some args \<Longrightarrow> args = []"
proof (induction ps xs arbitrary: args rule: match_segments.induct)
  case 1
  then show ?case by simp
next
  case (2 p ps x xs)
  then show ?case by (simp split: if_splits)
next
  case (3 x xs)
  then show ?case by simp
next
  case (4 p ps)
  then show ?case by simp
qed

lemma static_rules_bind_nothing:
  "list_all static_rule rules \<Longrightarrow> lookup_rule rules m path seen = Inr (e, args) \<Longrightarrow> args = []"
proof (induction rules m path seen rule: lookup_rule.induct)
  case (1 m path seen)
  then show ?case by simp
next
  case (2 rule ms e' rules m path seen)
  show ?case
  proof (cases "match_rule rule path")
    case None
    with 2 show ?thesis by simp
  next
    case (Some a)
    from "2.prems"(1) have "list_all (\<lambda>p. rule_variable p = None) (split_slash rule)"
      by (simp add: static_rule_def)
    with Some have a: "a = []"
      unfolding match_rule_def by (rule static_segments_bind_nothing [rotated -1])
    show ?thesis
    proof (cases "m \<in> set (rule_methods ms)")
      case True
      with 2 Some a show ?thesis by simp
    next
      case False
      with 2 Some show ?thesis by simp
    qed
  qed
qed

lemma api_rules_static: "list_all static_rule api_url_map"
  by (simp add: api_url_map_def static_rule_def rule_variable_def)


subsection \<open>The alert route\<close>

lemma route_alert:
  "lookup_rule api_url_map GET ''/api/server_alert'' False = Inr (Ep_get_alert, [])"
  by code_simp

lemma get_alert_unbound:
  "api_view Ep_get_alert [] =
     Inl (TypeError (''missing 1 required positional argument(s): '' @ quote ''name''))"
  by (simp add: call_view_def digit_def)

lemma remote_metrics_not_alert: "fst (get_remote_metrics s) \<noteq> get_alert n"
  by (simp add: get_remote_metrics_def requests_get_def get_alert_def split_def Let_def
        split: http_outcome.splits sum.splits option.splits)

lemma view_never_alert:
  "api_view e [] = Inr view \<Longrightarrow> fst (view s) \<noteq> get_alert n"
proof (cases e)
  case Ep_server_response
  then show "api_view e [] = Inr view \<Longrightarrow> fst (view s) \<noteq> get_alert n"
    by (auto simp add: call_view_def server_response_def get_alert_def)
next
  case Ep_get_alert
  then show "api_view e [] = Inr view \<Longrightarrow> fst (view s) \<noteq> get_alert n"
    by (simp add: call_view_def)
next
  case Ep_get_current_metrics
  then show "api_view e [] = Inr view \<Longrightarrow> fst (view s) \<noteq> get_alert n"
    by (auto simp add: call_view_def get_current_metrics_def get_alert_def Let_def)
next
  case Ep_get_remote_metrics
  then show "api_view e [] = Inr view \<Longrightarrow> fst (view s) \<noteq> get_alert n"
    by (auto simp add: call_view_def remote_metrics_not_alert)
next
  case Ep_post_hello
  then show "api_view e [] = Inr view \<Longrightarrow> fst (view s) \<noteq> get_alert n"
    by (auto simp add: call_view_def post_hello_def get_alert_def)
qed

lemma dispatch_never_alert: "fst (api_dispatch r s) \<noteq> Reply (get_alert n)"
proof (cases "lookup_rule api_url_map (req_method r) (req_path r) False")
  case (Inl code)
  then show ?thesis by (simp add: api_dispatch_def)
next
  case (Inr found)
  obtain e args where f: "found = (e, args)" by (cases found)
  with Inr have "args = []"
    using static_rules_bind_nothing [OF api_rules_static] by blast
  with Inr f show ?thesis
    using view_never_alert [of e _ s n]
    by (auto simp add: api_dispatch_def split_def Let_def split: sum.splits)
qed

text \<open>
  C6: every GET request to \<open>/api/server_alert\<close> ends in a \<open>TypeError\<close> instead of
  the alert JSON: the view \<open>get_alert\<close> requires the argument \<open>name\<close>, and its rule has
  no variable that would bind it. No request at all (\<open>r\<close>, in any state) is answered
  with the body of \<open>get_alert\<close>.
\<close>

theorem alert_route_always_fails:
  "api_dispatch (get_request ''/api/server_alert'' q) s
     = (Raised (TypeError (''missing 1 required positional argument(s): '' @ quote ''name'')), s)
   \<and> fst (api_dispatch r s') \<noteq> Reply (get_alert n)"
proof
  show "api_dispatch (get_request ''/api/server_alert'' q) s
     = (Raised (TypeError (''missing 1 required positional argument(s): '' @ quote ''name'')), s)"
    by (simp only: api_dispatch_def get_request_def request.simps route_alert sum.case prod.case
          http_method.distinct if_False get_alert_unbound)
  show "fst (api_dispatch r s') \<noteq> Reply (get_alert n)"
    by (rule dispatch_never_alert)
qed


subsection \<open>The remote metrics route\<close>

lemma route_remote:
  "lookup_rule api_url_map GET ''/api/metrics/remote'' False = Inr (Ep_get_remote_metrics, [])"
  by code_simp

lemma route_metrics:
  "lookup_rule api_url_map GET ''/api/metrics'' False = Inr (Ep_get_current_metrics, [])"
  by code_simp

lemma dispatch_remote:
  "api_dispatch (get_request ''/api/metrics/remote'' q) s =
     (Reply (fst (get_remote_metrics s)), snd (get_remote_metrics s))"
  by (simp add: api_dispatch_def get_request_def route_remote call_view_nil split_def Let_def)

lemma dispatch_metrics:
  "api_dispatch (get_request ''/api/metrics'' q) s =
     (Reply (fst (get_current_metrics s)), snd (get_current_metrics s))"
  by (simp add: api_dispatch_def get_request_def route_metrics call_view_nil split_def Let_def)

text \<open>
  C7: when the call to the local \<open>/api/metrics\<close> endpoint is refused, the view of
  \<open>/api/metrics/remote\<close> catches the exception and answers with a JSON object that has
  an \<open>error\<close> field; nothing is raised, and exactly one outgoing call was made (one
  outcome taken from the network, one URL recorded): there is no retry.
\<close>

theorem remote_metrics_connection_refused:
  assumes "shd (network s) = ConnectionRefused msg"
  shows "\<exists>body.
     api_dispatch (get_request ''/api/metrics/remote'' q) s
       = (Reply body, s\<lparr>network := stl (network s),
                         sent := sent s @ [''http://localhost:9000/api/metrics'']\<rparr>)
     \<and> field ''error'' body = Some (JStr ''Connection failed - make sure server is running'')"
  using assms
  by (simp add: dispatch_remote get_remote_metrics_def requests_get_def)

theorem remote_metrics_connection_refused_witness:
  "shd (network offline) = ConnectionRefused ''Connection refused''
   \<and> (\<exists>body.
     api_dispatch (get_request ''/api/metrics/remote'' []) offline
       = (Reply body, offline\<lparr>network := stl (network offline),
                         sent := sent offline @ [''http://localhost:9000/api/metrics'']\<rparr>)
     \<and> field ''error'' body = Some (JStr ''Connection failed - make sure server is running''))"
proof -
  have h: "shd (network offline) = ConnectionRefused ''Connection refused''"
    by (simp add: offline_def)
  from remote_metrics_connection_refused [OF h, of "[]"] h show ?thesis by blast
qed

subsection \<open>The metrics route\<close>

text \<open>
  C10: every GET request to \<open>/api/metrics\<close> is answered with \<open>cpu_usage\<close>,
  \<open>memory_usage\<close>, \<open>disk_space\<close> and \<open>uptime\<close> equal to the constants \<open>45%\<close>,
  \<open>67%\<close>, \<open>23GB free\<close> and \<open>5 days, 3 hours\<close>; with the timestamp left out, any two
  replies (any query strings, any states) are equal.
\<close>

theorem metrics_constant_but_timestamp:
  "(\<exists>ts s'.
      api_dispatch (get_request ''/api/metrics'' q) s
        = (Reply (JObj [(''cpu_usage'', JStr ''45%''),
                        (''memory_usage'', JStr ''67%''),
                        (''disk_space'', JStr ''23GB free''),
                        (''uptime'', JStr ''5 days, 3 hours''),
                        (''timestamp'', JStr ts)]), s'))
   \<and> map_option (without_key ''timestamp'')
         (reply_body (fst (api_dispatch (get_request ''/api/metrics'' q) s)))
     = map_option (without_key ''timestamp'')
         (reply_body (fst (api_dispatch (get_request ''/api/metrics'' q2) s2)))"
  by (simp add: dispatch_metrics get_current_metrics_def Let_def)


section \<open>Properties of the command line\<close>













section \<open>Properties of the health endpoint\<close>

subsection \<open>Zero-padded numbers compare as the numbers do\<close>

lemma digit_code: "d < 10 \<Longrightarrow> of_char (digit d) = 48 + d"
proof -
  assume "d < 10"
  then have "d = 0 \<or> d = 1 \<or> d = 2 \<or> d = 3 \<or> d = 4 \<or> d = 5 \<or> d = 6 \<or> d = 7 \<or> d = 8 \<or> d = 9"
    by arith
  then show ?thesis
    by (elim disjE) (simp_all add: digit_def)
qed

lemma digit_mono: "a < b \<Longrightarrow> b < 10 \<Longrightarrow> digit a < digit b"
  by (simp add: less_char_def digit_code)

lemma length_digs: "length (digs w n) = w"
  by (induction w arbitrary: n) simp_all

lemma digs_zero: "digs w 0 = replicate w CHR ''0''"
  by (induction w) (simp_all add: digit_def replicate_append_same)

lemma append_less_same: "(xs :: 'a::linorder list) @ a < xs @ b \<longleftrightarrow> a < b"
  by (induction xs) simp_all

lemma append_le_same: "(xs :: 'a::linorder list) @ a \<le> xs @ b \<longleftrightarrow> a \<le> b"
  by (induction xs) simp_all

lemma less_append_both:
  "(xs :: 'a::linorder list) < ys \<Longrightarrow> length ys \<le> length xs \<Longrightarrow> xs @ a < ys @ b"
  unfolding list_less_def by (rule lexord_sufI)

lemma digs_mono: "n < m \<Longrightarrow> m < 10 ^ w \<Longrightarrow> digs w n < digs w m"
proof (induction w arbitrary: n m)
  case 0
  then show ?case by simp
next
  case (Suc w)
  have md: "m div 10 < 10 ^ w" using Suc.prems(2) by (simp add: less_mult_imp_div_less)
  have le: "n div 10 \<le> m div 10" using Suc.prems(1) by (simp add: div_le_mono)
  show ?case
  proof (cases "n div 10 < m div 10")
    case True
    then have "digs w (n div 10) < digs w (m div 10)" using md by (rule Suc.IH)
    then show ?thesis by (simp add: less_append_both length_digs)
  next
    case False
    with le have eq: "n div 10 = m div 10" by simp
    have "n mod 10 < m mod 10"
      using Suc.prems(1) eq by (metis div_mult_mod_eq nat_add_left_cancel_less)
    then have "digit (n mod 10) < digit (m mod 10)" by (rule digit_mono) simp
    then show ?thesis by (simp add: eq append_less_same)
  qed
qed

lemma fmt_nat: "fmt_0d w (int n) = replicate (w - length (str_nat n)) CHR ''0'' @ str_nat n"
  by (simp add: fmt_0d_def del: str_nat.simps)

lemma str_nat_small: "n < 10 \<Longrightarrow> str_nat n = [digit n]"
  by (subst str_nat.simps) (simp del: str_nat.simps)

lemma str_nat_big: "\<not> n < 10 \<Longrightarrow> str_nat n = str_nat (n div 10) @ [digit (n mod 10)]"
  by (subst str_nat.simps) (simp del: str_nat.simps)

lemma fmt_small: "n < 10 \<Longrightarrow> fmt_0d (Suc w) (int n) = replicate w CHR ''0'' @ [digit n]"
  by (simp add: fmt_nat str_nat_small del: str_nat.simps)

lemma fmt_big:
  "\<not> n < 10 \<Longrightarrow> fmt_0d (Suc (Suc w)) (int n) = fmt_0d (Suc w) (int (n div 10)) @ [digit (n mod 10)]"
  by (simp add: fmt_nat str_nat_big del: str_nat.simps)

lemma fmt_digs: "n < 10 ^ Suc w \<Longrightarrow> fmt_0d (Suc w) (int n) = digs (Suc w) n"
proof (induction w arbitrary: n)
  case 0
  then have "n < 10" by simp
  then show ?case by (simp add: fmt_small del: str_nat.simps)
next
  case (Suc w)
  show ?case
  proof (cases "n < 10")
    case True
    then have "digs (Suc (Suc w)) n = digs (Suc w) 0 @ [digit n]"
      by simp
    then show ?thesis
      by (simp only: fmt_small [OF True] digs_zero)
  next
    case False
    have d: "n div 10 < 10 ^ Suc w" using Suc.prems by (simp add: less_mult_imp_div_less)
    have "fmt_0d (Suc (Suc w)) (int n) = digs (Suc w) (n div 10) @ [digit (n mod 10)]"
      by (simp only: fmt_big [OF False] Suc.IH [OF d])
    then show ?thesis by (simp del: str_nat.simps)
  qed
qed

lemma fmt_mono:
  assumes "n < m" and "m < 10 ^ Suc w"
  shows "fmt_0d (Suc w) (int n) < fmt_0d (Suc w) (int m)"
proof -
  have n: "n < 10 ^ Suc w" using assms by simp
  have "digs (Suc w) n < digs (Suc w) m" using assms by (rule digs_mono)
  then show ?thesis by (simp only: fmt_digs [OF n] fmt_digs [OF assms(2)])
qed

lemma length_fmt: "n < 10 ^ Suc w \<Longrightarrow> length (fmt_0d (Suc w) (int n)) = Suc w"
  by (simp only: fmt_digs length_digs)

lemma field_le:
  assumes "n < 10 ^ Suc w" and "m < 10 ^ Suc w" and "n < m \<or> (n = m \<and> r \<le> r')"
  shows "fmt_0d (Suc w) (int n) @ r \<le> fmt_0d (Suc w) (int m) @ r'"
proof (cases "n < m")
  case True
  then have "fmt_0d (Suc w) (int n) < fmt_0d (Suc w) (int m)" using assms(2) by (rule fmt_mono)
  moreover have "length (fmt_0d (Suc w) (int m)) \<le> length (fmt_0d (Suc w) (int n))"
    by (simp only: length_fmt [OF assms(1)] length_fmt [OF assms(2)] order_refl)
  ultimately have "fmt_0d (Suc w) (int n) @ r < fmt_0d (Suc w) (int m) @ r'"
    by (rule less_append_both)
  then show ?thesis by (rule less_imp_le)
next
  case False
  with assms(3) have "n = m" and "r \<le> r'" by simp_all
  then show ?thesis by (simp only: append_le_same)
qed

lemma field2_le:
  assumes "n < 100" and "m < 100" and "n < m \<or> (n = m \<and> c)" and "c \<Longrightarrow> r \<le> r'"
  shows "fmt_0d 2 (int n) @ sep @ r \<le> fmt_0d 2 (int m) @ sep @ r'"
proof -
  have "n < m \<or> (n = m \<and> sep @ r \<le> sep @ r')"
    using assms(3,4) by (auto simp only: append_le_same)
  moreover have "n < 10 ^ Suc 1" "m < 10 ^ Suc 1" using assms(1,2) by simp_all
  ultimately have "fmt_0d (Suc 1) (int n) @ sep @ r \<le> fmt_0d (Suc 1) (int m) @ sep @ r'"
    by (intro field_le)
  then show ?thesis by (simp only: Suc_1 numeral_2_eq_2 [symmetric])
qed

lemma field4_le:
  assumes "n < 10000" and "m < 10000" and "n < m \<or> (n = m \<and> c)" and "c \<Longrightarrow> r \<le> r'"
  shows "fmt_0d 4 (int n) @ sep @ r \<le> fmt_0d 4 (int m) @ sep @ r'"
proof -
  have "n < m \<or> (n = m \<and> sep @ r \<le> sep @ r')"
    using assms(3,4) by (auto simp only: append_le_same)
  moreover have "n < 10 ^ Suc 3" "m < 10 ^ Suc 3" using assms(1,2) by simp_all
  ultimately have "fmt_0d (Suc 3) (int n) @ sep @ r \<le> fmt_0d (Suc 3) (int m) @ sep @ r'"
    by (intro field_le)
  moreover have "Suc 3 = 4" by simp
  ultimately show ?thesis by (simp only:)
qed

lemma field6_le:
  assumes "n < 1000000" and "m < 1000000" and "n \<le> m"
  shows "fmt_0d 6 (int n) \<le> fmt_0d 6 (int m)"
proof -
  have "n < m \<or> (n = m \<and> ([]::string) \<le> [])" using assms(3) by auto
  moreover have "n < 10 ^ Suc 5" "m < 10 ^ Suc 5" using assms(1,2) by simp_all
  ultimately have "fmt_0d (Suc 5) (int n) @ [] \<le> fmt_0d (Suc 5) (int m) @ []"
    by (intro field_le)
  moreover have "Suc 5 = 6" by simp
  ultimately show ?thesis by (simp only: append_Nil2)
qed

lemma not_later_unfold:
  "not_later a b \<longleftrightarrow>
     year a < year b \<or> (year a = year b \<and>
      (month a < month b \<or> (month a = month b \<and>
       (day a < day b \<or> (day a = day b \<and>
        (hour a < hour b \<or> (hour a = hour b \<and>
         (minute a < minute b \<or> (minute a = minute b \<and>
          (second a < second b \<or> (second a = second b \<and>
            microsecond a \<le> microsecond b)))))))))))"
  by (auto simp add: not_later_def dt_key_def)

lemma fraction_le:
  assumes "microsecond a < 1000000" and "microsecond b < 1000000"
    and "microsecond a \<le> microsecond b"
  shows "(if microsecond a = 0 then [] else ''.'' @ fmt_0d 6 (int (microsecond a)))
       \<le> (if microsecond b = 0 then [] else ''.'' @ fmt_0d 6 (int (microsecond b)))"
proof (cases "microsecond a = 0")
  case True
  then show ?thesis by simp
next
  case False
  with assms(3) have nz: "microsecond b \<noteq> 0" by simp
  have "fmt_0d 6 (int (microsecond a)) \<le> fmt_0d 6 (int (microsecond b))"
    using assms by (rule field6_le)
  then show ?thesis using False nz by (simp del: str_nat.simps)
qed

lemma isoformat_mono:
  assumes va: "valid_datetime a" and vb: "valid_datetime b" and le: "not_later a b"
  shows "isoformat a \<le> isoformat b"
proof -
  let ?f = "\<lambda>d. (if microsecond d = 0 then [] else ''.'' @ fmt_0d 6 (int (microsecond d)))"
  let ?s5 = "\<lambda>d. fmt_0d 2 (int (second d)) @ [] @ ?f d"
  let ?s4 = "\<lambda>d. fmt_0d 2 (int (minute d)) @ '':'' @ ?s5 d"
  let ?s3 = "\<lambda>d. fmt_0d 2 (int (hour d)) @ '':'' @ ?s4 d"
  let ?s2 = "\<lambda>d. fmt_0d 2 (int (day d)) @ ''T'' @ ?s3 d"
  let ?s1 = "\<lambda>d. fmt_0d 2 (int (month d)) @ ''-'' @ ?s2 d"
  let ?s0 = "\<lambda>d. fmt_0d 4 (int (year d)) @ ''-'' @ ?s1 d"
  let ?c6 = "microsecond a \<le> microsecond b"
  let ?c5 = "second a < second b \<or> (second a = second b \<and> ?c6)"
  let ?c4 = "minute a < minute b \<or> (minute a = minute b \<and> ?c5)"
  let ?c3 = "hour a < hour b \<or> (hour a = hour b \<and> ?c4)"
  let ?c2 = "day a < day b \<or> (day a = day b \<and> ?c3)"
  let ?c1 = "month a < month b \<or> (month a = month b \<and> ?c2)"
  let ?c0 = "year a < year b \<or> (year a = year b \<and> ?c1)"
  have ba: "year a < 10000" "month a < 100" "day a < 100" "hour a < 100" "minute a < 100"
    "second a < 100" "microsecond a < 1000000"
    using va by (simp_all add: valid_datetime_def)
  have bb: "year b < 10000" "month b < 100" "day b < 100" "hour b < 100" "minute b < 100"
    "second b < 100" "microsecond b < 1000000"
    using vb by (simp_all add: valid_datetime_def)
  have h6: "?c6 \<Longrightarrow> ?f a \<le> ?f b"
    using ba(7) bb(7) by (rule fraction_le)
  have h5: "?c5 \<Longrightarrow> ?s5 a \<le> ?s5 b"
    using ba(6) bb(6) _ h6 by (rule field2_le)
  have h4: "?c4 \<Longrightarrow> ?s4 a \<le> ?s4 b"
    using ba(5) bb(5) _ h5 by (rule field2_le)
  have h3: "?c3 \<Longrightarrow> ?s3 a \<le> ?s3 b"
    using ba(4) bb(4) _ h4 by (rule field2_le)
  have h2: "?c2 \<Longrightarrow> ?s2 a \<le> ?s2 b"
    using ba(3) bb(3) _ h3 by (rule field2_le)
  have h1: "?c1 \<Longrightarrow> ?s1 a \<le> ?s1 b"
    using ba(2) bb(2) _ h2 by (rule field2_le)
  have h0: "?c0 \<Longrightarrow> ?s0 a \<le> ?s0 b"
    using ba(1) bb(1) _ h1 by (rule field4_le)
  have c0: ?c0 using le by (simp only: not_later_unfold)
  have "?s0 a \<le> ?s0 b" using c0 by (rule h0)
  then show ?thesis by (simp only: isoformat_def append_Nil)
qed


subsection \<open>The health endpoint\<close>

lemma dispatch_health_reply:
  "dcim_dispatch (get_request ''/health'' q) s = (health_reply (shd (clock s)), s\<lparr>clock := stl (clock s)\<rparr>)"
  by (simp add: dispatch_health health_check_def now_def health_reply_def)

lemma serve_health:
  "fst (dcim_serve (replicate n (get_request ''/health'' q)) s) = map health_reply (stake n (clock s))"
proof (induction n arbitrary: s)
  case 0
  then show ?case by simp
next
  case (Suc n)
  have "fst (dcim_serve (replicate (Suc n) (get_request ''/health'' q)) s)
      = health_reply (shd (clock s))
        # fst (dcim_serve (replicate n (get_request ''/health'' q)) (s\<lparr>clock := stl (clock s)\<rparr>))"
    by (simp add: dispatch_health_reply split_def Let_def)
  also have "\<dots> = health_reply (shd (clock s)) # map health_reply (stake n (stl (clock s)))"
    by (simp add: Suc.IH)
  finally show ?case by simp
qed

lemma health_reply_fields:
  "reply_field ''status'' (health_reply t) = Some (JStr ''healthy'')"
  "reply_field ''timestamp'' (health_reply t) = Some (JStr (isoformat t))"
  by (simp_all add: health_reply_def reply_field_def)

lemma statuses_health:
  "map (reply_field ''status'') (map health_reply ts) = replicate (length ts) (Some (JStr ''healthy''))"
  by (induction ts) (simp_all add: health_reply_fields)

lemma timestamps_health: "timestamps (map health_reply ts) = map isoformat ts"
  by (induction ts) (simp_all add: timestamps_def List.map_filter_simps health_reply_fields)

lemma iso_before: "isoformat before_setback = ''2024-11-03T01:59:59.500000''"
  by (simp add: isoformat_def before_setback_def fmt_0d_def digit_def)

lemma iso_after: "isoformat after_setback = ''2024-11-03T01:00:00.250000''"
  by (simp add: isoformat_def after_setback_def fmt_0d_def digit_def)

text \<open>
  C5, as stated: in every run of repeated GET requests to \<open>/health\<close> each reply has
  status \<open>healthy\<close> and the timestamps never decrease. The timestamp is the wall
  clock (\<open>datetime.now()\<close>, naive local time) at the request: when the clock is set
  back between two requests, the second timestamp is smaller than the first.
\<close>

theorem health_timestamps_can_go_back:
  "timestamps (fst (dcim_serve (replicate 2 (get_request ''/health'' [])) setback_night))
     = [''2024-11-03T01:59:59.500000'', ''2024-11-03T01:00:00.250000'']
   \<and> \<not> sorted (timestamps (fst (dcim_serve (replicate 2 (get_request ''/health'' [])) setback_night)))"
proof -
  have s: "stake 2 (clock setback_night) = [before_setback, after_setback]"
    by (simp add: setback_night_def numeral_2_eq_2)
  have t: "timestamps (fst (dcim_serve (replicate 2 (get_request ''/health'' [])) setback_night))
     = [''2024-11-03T01:59:59.500000'', ''2024-11-03T01:00:00.250000'']"
    by (simp add: serve_health s timestamps_health [of "[before_setback, after_setback]", simplified] iso_before iso_after)
  have "\<not> (''2024-11-03T01:59:59.500000'' \<le> ''2024-11-03T01:00:00.250000'')"
    by simp
  then have "\<not> sorted [''2024-11-03T01:59:59.500000'', ''2024-11-03T01:00:00.250000'']"
    by simp
  with t show ?thesis by simp
qed


lemma sorted_isoformat:
  assumes "list_all valid_datetime ts" and "sorted_wrt not_later ts"
  shows "sorted (map isoformat ts)"
proof -
  have "sorted_wrt (\<lambda>a b. isoformat a \<le> isoformat b) ts"
  proof (rule sorted_wrt_mono_rel [OF _ assms(2)])
    fix a b
    assume "a \<in> set ts" and "b \<in> set ts" and "not_later a b"
    with assms(1) show "isoformat a \<le> isoformat b"
      by (simp add: list_all_iff isoformat_mono)
  qed
  then show ?thesis by (simp only: sorted_wrt_map)
qed

text \<open>
  C5, amended: in every run of \<open>n\<close> repeated GET requests to \<open>/health\<close> each reply
  has status \<open>healthy\<close>, and its timestamp is the ISO rendering of the wall-clock reading
  taken at that request; the timestamps never decrease (as strings) whenever the
  readings themselves are in chronological order.
\<close>

theorem health_replies:
  "map (reply_field ''status'') (fst (dcim_serve (replicate n (get_request ''/health'' q)) s))
     = replicate n (Some (JStr ''healthy''))
   \<and> timestamps (fst (dcim_serve (replicate n (get_request ''/health'' q)) s))
     = map isoformat (stake n (clock s))
   \<and> (list_all valid_datetime (stake n (clock s)) \<and> sorted_wrt not_later (stake n (clock s))
        \<longrightarrow> sorted (timestamps (fst (dcim_serve (replicate n (get_request ''/health'' q)) s))))"
proof (intro conjI impI)
  show "map (reply_field ''status'') (fst (dcim_serve (replicate n (get_request ''/health'' q)) s))
     = replicate n (Some (JStr ''healthy''))"
    by (simp only: serve_health statuses_health length_stake)
next
  show "timestamps (fst (dcim_serve (replicate n (get_request ''/health'' q)) s))
     = map isoformat (stake n (clock s))"
    by (simp only: serve_health timestamps_health)
next
  assume "list_all valid_datetime (stake n (clock s)) \<and> sorted_wrt not_later (stake n (clock s))"
  then have "sorted (map isoformat (stake n (clock s)))"
    by (simp only: sorted_isoformat)
  then show "sorted (timestamps (fst (dcim_serve (replicate n (get_request ''/health'' q)) s)))"
    by (simp only: serve_health timestamps_health)
qed

theorem health_replies_witness:
  "list_all valid_datetime (stake 2 (clock forward_night))
   \<and> sorted_wrt not_later (stake 2 (clock forward_night))
   \<and> timestamps (fst (dcim_serve (replicate 2 (get_request ''/health'' [])) forward_night))
       = [''2024-11-03T01:00:00.250000'', ''2024-11-03T01:59:59.500000'']
   \<and> sorted (timestamps (fst (dcim_serve (replicate 2 (get_request ''/health'' [])) forward_night)))"
proof -
  have s: "stake 2 (clock forward_night) = [after_setback, before_setback]"
    by (simp add: forward_night_def numeral_2_eq_2)
  have v: "list_all valid_datetime (stake 2 (clock forward_night))"
    by (simp add: s valid_datetime_def after_setback_def before_setback_def)
  have o: "sorted_wrt not_later (stake 2 (clock forward_night))"
    by (simp add: s not_later_unfold after_setback_def before_setback_def)
  have t: "map isoformat (stake 2 (clock forward_night))
       = [''2024-11-03T01:00:00.250000'', ''2024-11-03T01:59:59.500000'']"
    by (simp only: s list.map iso_before iso_after)
  from health_replies [of 2 "[]" forward_night] v o t show ?thesis by simp
qed


end
